theory Spec2Isabelle
  imports Complex_Main
begin

section \<open>Data model (frontend/src/types/chat.ts)\<close>

text \<open>
  The interfaces of \<^verbatim>\<open>types/chat.ts\<close> as records. Record fields are global constants in
  HOL, so every field carries a short prefix of its interface (\<open>dr_\<close> for DocumentReference,
  \<open>m_\<close> for Message, \<open>cs_\<close> for ChatSession, \<open>ev_\<close> for StreamingChatResponse, ...); an optional
  field \<^verbatim>\<open>f?: T\<close> is a \<open>T option\<close>, with \<open>None\<close> for \<^verbatim>\<open>undefined\<close>. Strings are \<open>char list\<close>;
  the operations used on them below (\<^verbatim>\<open>startsWith\<close>, \<^verbatim>\<open>slice\<close>, \<^verbatim>\<open>split\<close>, \<^verbatim>\<open>+\<close>) only look for
  ASCII characters and concatenate, so they agree with the JavaScript ones on the encoded text.
  A \<^verbatim>\<open>number\<close> that the code only carries is a \<open>real\<close>.
\<close>

record DocumentReference =
  dr_document_id :: string
  dr_filename :: string
  dr_page_number :: "nat option"
  dr_chunk_id :: "string option"
  dr_relevance_score :: real
  dr_snippet :: "string option"

record MessageMetadata =
  md_sources :: "DocumentReference list option"
  md_confidence :: "real option"
  md_processing_time :: "real option"
  md_model_used :: "string option"
  md_tokens_used :: "nat option"

datatype role = User | Assistant

record Message =
  m_id :: string
  m_content :: string
  m_role :: role
  m_timestamp :: string
  m_metadata :: "MessageMetadata option"

record ChatSession =
  cs_id :: string
  cs_title :: string
  cs_messages :: "Message list"
  cs_created_at :: string
  cs_updated_at :: string
  cs_user_id :: string

record ChatRequest =
  rq_message :: string
  rq_session_id :: "string option"
  rq_include_sources :: "bool option"
  rq_max_sources :: "nat option"

record ChatResponse =
  rs_message :: Message
  rs_session_id :: string
  rs_sources :: "DocumentReference list option"

record ChatSessionsResponse =
  sr_sessions :: "ChatSession list"
  sr_total :: nat

text \<open>
  \<^verbatim>\<open>StreamingChatResponse\<close>: the discriminator \<^verbatim>\<open>type\<close> is declared as the union of the four
  literals \<^verbatim>\<open>'token' | 'sources' | 'done' | 'error'\<close>. It is kept as the string that arrives, so
  that a value outside the four reaches the \<^verbatim>\<open>switch\<close> of the consumer and takes none of its cases.
\<close>

record StreamingChatResponse =
  ev_type :: string
  ev_content :: "string option"
  ev_sources :: "DocumentReference list option"
  ev_error :: "string option"
  ev_message_id :: "string option"

section \<open>The environment of the hooks\<close>

text \<open>A thrown JavaScript error: its \<^verbatim>\<open>name\<close> and its \<^verbatim>\<open>message\<close>.\<close>

record js_error =
  err_name :: string
  err_message :: string

definition Error :: "string \<Rightarrow> js_error" where
  "Error msg = \<lparr>err_name = ''Error'', err_message = msg\<rparr>"

definition AbortError :: js_error where
  "AbortError = \<lparr>err_name = ''AbortError'', err_message = ''The user aborted a request.''\<rparr>"

record toast =
  t_title :: string
  t_description :: string
  t_variant :: "string option"

text \<open>
  Everything the chat hooks can read or change: the three React state cells of
  \<^verbatim>\<open>useStreamingChat\<close>, the \<^verbatim>\<open>abortControllerRef\<close> (\<open>None\<close> for \<^verbatim>\<open>null\<close>, \<open>Some b\<close> for a controller whose signal
  is aborted iff \<open>b\<close>), the two entries of the query cache it writes (\<^verbatim>\<open>QueryKeys.CHAT_SESSION(id)\<close>
  as a map from the id, \<^verbatim>\<open>QueryKeys.CHAT_SESSIONS\<close>), the toasts shown, the lines passed to
  \<^verbatim>\<open>console.warn\<close> and the bodies of the requests sent to \<^verbatim>\<open>/api/chat/stream\<close>.
\<close>

record world =
  isStreaming :: bool
  streamingMessage :: string
  streamingSources :: "DocumentReference list"
  abortControllerRef :: "bool option"
  chatSession :: "string \<rightharpoonup> ChatSession"
  chatSessions :: "ChatSessionsResponse option"
  toasts :: "toast list"
  console_warn :: "string list"
  requests :: "ChatRequest list"

text \<open>
  The values a \<^verbatim>\<open>sendStreamingMessage\<close> callback closes over. \<^verbatim>\<open>useCallback\<close> rebuilds the
  callback when one of them changes, so a callback holds the values of the render that made
  it: inside one call, \<^verbatim>\<open>isStreaming\<close>, \<^verbatim>\<open>streamingMessage\<close> and \<^verbatim>\<open>streamingSources\<close> are
  constants, whatever the setters do to the state cells meanwhile.
\<close>

record closure =
  c_isStreaming :: bool
  c_streamingMessage :: string
  c_streamingSources :: "DocumentReference list"
  c_sessionId :: "string option"

definition render :: "world \<Rightarrow> string option \<Rightarrow> closure" where
  "render w sessionId =
     \<lparr>c_isStreaming = isStreaming w, c_streamingMessage = streamingMessage w,
      c_streamingSources = streamingSources w, c_sessionId = sessionId\<rparr>"

text \<open>The state of a hook that has just been mounted, over a given query cache.\<close>

definition mounted :: "(string \<rightharpoonup> ChatSession) \<Rightarrow> ChatSessionsResponse option \<Rightarrow> world" where
  "mounted one many =
     \<lparr>isStreaming = False, streamingMessage = [], streamingSources = [],
      abortControllerRef = None, chatSession = one, chatSessions = many,
      toasts = [], console_warn = [], requests = []\<rparr>"

record options =
  o_sessionId :: "string option"
  o_includeSource :: "bool option"
  o_maxSources :: "nat option"

text \<open>
  The clock: \<^verbatim>\<open>Date.now()\<close> and \<^verbatim>\<open>new Date().toISOString()\<close>. The few readings taken while
  one message pair is stored are taken as one instant.
\<close>

record clock =
  now_ms :: nat
  now_iso :: string

text \<open>
  What the network does to one \<^verbatim>\<open>fetch\<close> of the stream, as the callback observes it at its
  \<^verbatim>\<open>await\<close>s. A body is the finite list of what successive \<^verbatim>\<open>reader.read()\<close> calls meet before
  \<^verbatim>\<open>{done: true}\<close>: a chunk of (decoded) text, a failure of the read, or the user invoking
  \<^verbatim>\<open>cancelStreaming\<close> while the read is pending. \<open>CancelThen net\<close> is the same invocation
  while the \<^verbatim>\<open>fetch\<close> itself is pending, \<open>net\<close> being what the fetch gives if it goes on.
\<close>

datatype read_step = Chunk string | ReadError js_error | Cancel

datatype response_body = NoBody | Body "read_step list"

datatype fetch_outcome =
    FetchError js_error
  | HttpResponse nat response_body
  | CancelThen fetch_outcome

section \<open>JavaScript helpers\<close>

abbreviation newline :: char where
  "newline \<equiv> CHR 0x0A"

definition startsWith :: "string \<Rightarrow> string \<Rightarrow> bool" where
  "startsWith s p = (take (length p) s = p)"

text \<open>\<^verbatim>\<open>s.split('\n')\<close>: the pieces between the newlines; never an empty array.\<close>

fun split_nl :: "string \<Rightarrow> string list" where
  "split_nl [] = [[]]"
| "split_nl (c # cs) =
     (if c = newline then [] # split_nl cs
      else (case split_nl cs of [] \<Rightarrow> [[c]] | l # ls \<Rightarrow> (c # l) # ls))"

text \<open>\<^verbatim>\<open>lines.pop() || ''\<close> and the array \<^verbatim>\<open>pop\<close> leaves behind.\<close>

definition pop_or_empty :: "string list \<Rightarrow> string" where
  "pop_or_empty ls = (if ls = [] then [] else last ls)"

definition after_pop :: "string list \<Rightarrow> string list" where
  "after_pop ls = butlast ls"

text \<open>Truthiness of an optional string, and \<^verbatim>\<open>a || b\<close> on two of them.\<close>

definition truthy :: "string option \<Rightarrow> bool" where
  "truthy a = (case a of None \<Rightarrow> False | Some s \<Rightarrow> s \<noteq> [])"

definition or_else :: "string option \<Rightarrow> string option \<Rightarrow> string option" where
  "or_else a b = (if truthy a then a else b)"

text \<open>The decimal rendering of a number in a template string.\<close>

function decimal :: "nat \<Rightarrow> string" where
  "decimal n =
     (if n < 10 then [''0123456789'' ! n]
      else decimal (n div 10) @ [''0123456789'' ! (n mod 10)])"
  by pat_completeness auto
termination
  by (relation "measure (\<lambda>n. n)") auto

declare decimal.simps [simp del]

text \<open>\<^verbatim>\<open>response.ok\<close>.\<close>

definition ok :: "nat \<Rightarrow> bool" where
  "ok status = (200 \<le> status \<and> status \<le> 299)"

section \<open>The streaming hook (frontend/src/hooks/use-chat.ts, useStreamingChat)\<close>

subsection \<open>State setters and cancellation\<close>

definition setStreamingMessage :: "(string \<Rightarrow> string) \<Rightarrow> world \<Rightarrow> world" where
  "setStreamingMessage f w = w\<lparr>streamingMessage := f (streamingMessage w)\<rparr>"

definition setStreamingSources :: "DocumentReference list \<Rightarrow> world \<Rightarrow> world" where
  "setStreamingSources s w = w\<lparr>streamingSources := s\<rparr>"

definition setIsStreaming :: "bool \<Rightarrow> world \<Rightarrow> world" where
  "setIsStreaming b w = w\<lparr>isStreaming := b\<rparr>"

definition warn :: "string \<Rightarrow> world \<Rightarrow> world" where
  "warn line w = w\<lparr>console_warn := console_warn w @ [line]\<rparr>"

definition show_toast :: "toast \<Rightarrow> world \<Rightarrow> world" where
  "show_toast t w = w\<lparr>toasts := toasts w @ [t]\<rparr>"

text \<open>\<^verbatim>\<open>cancelStreaming\<close> (lines 353-357): abort the controller if there is one.\<close>

definition cancelStreaming :: "world \<Rightarrow> world" where
  "cancelStreaming w =
     (case abortControllerRef w of
        None \<Rightarrow> w
      | Some _ \<Rightarrow> w\<lparr>abortControllerRef := Some True\<rparr>)"

subsection \<open>One line of the stream (lines 263-291)\<close>

text \<open>
  The state of the read loop is the world and the local \<^verbatim>\<open>currentMessageId\<close>.

  \<open>handle_data\<close> is the \<^verbatim>\<open>switch (data.type)\<close> inside the \<^verbatim>\<open>try\<close>: \<open>Inl\<close> is the error it
  throws. \<^verbatim>\<open>data.content || ''\<close> is the content, or the empty string when there is none.
\<close>

type_synonym loop_state = "world \<times> string"

definition handle_data :: "StreamingChatResponse \<Rightarrow> loop_state \<Rightarrow> js_error + loop_state" where
  "handle_data d st =
     (let (w, currentMessageId) = st in
      if ev_type d = ''token'' then
        Inr (setStreamingMessage
               (\<lambda>prev. prev @ (case ev_content d of None \<Rightarrow> [] | Some c \<Rightarrow> c)) w,
             currentMessageId)
      else if ev_type d = ''sources'' then
        (case ev_sources d of
           None \<Rightarrow> Inr (w, currentMessageId)
         | Some s \<Rightarrow> Inr (setStreamingSources s w, currentMessageId))
      else if ev_type d = ''done'' then
        (case ev_message_id d of
           None \<Rightarrow> Inr (w, currentMessageId)
         | Some i \<Rightarrow> if i \<noteq> [] then Inr (w, i) else Inr (w, currentMessageId))
      else if ev_type d = ''error'' then
        Inl (Error (case ev_error d of
                      None \<Rightarrow> ''Streaming error''
                    | Some e \<Rightarrow> if e \<noteq> [] then e else ''Streaming error''))
      else Inr (w, currentMessageId))"

text \<open>
  The body of \<^verbatim>\<open>for (const line of lines)\<close>. \<^verbatim>\<open>JSON.parse\<close> belongs to the runtime and is the
  parameter \<open>parse\<close>: \<open>None\<close> where it throws (or gives nothing whose \<^verbatim>\<open>type\<close> can be read),
  otherwise the object, typed as the source declares it. The \<^verbatim>\<open>catch (e)\<close> around the
  \<^verbatim>\<open>try\<close> takes whatever was thrown inside, by \<^verbatim>\<open>JSON.parse\<close> or by \<^verbatim>\<open>case 'error'\<close>, and
  only warns.
\<close>

definition process_line ::
  "(string \<Rightarrow> StreamingChatResponse option) \<Rightarrow> string \<Rightarrow> loop_state \<Rightarrow> loop_state" where
  "process_line parse line st =
     (if startsWith line ''data: '' then
        (case parse (drop 6 line) of
           None \<Rightarrow> (warn line (fst st), snd st)
         | Some d \<Rightarrow>
             (case handle_data d st of
                Inl e \<Rightarrow> (warn line (fst st), snd st)
              | Inr st' \<Rightarrow> st'))
      else st)"

subsection \<open>The read loop (lines 255-293)\<close>

text \<open>
  \<open>consume parse steps buffer currentMessageId w\<close>: \<open>Inr\<close> of the final
  \<^verbatim>\<open>currentMessageId\<close> when the loop leaves through \<^verbatim>\<open>break\<close>, \<open>Inl\<close> of the error when
  \<^verbatim>\<open>reader.read()\<close> rejects; the world as it is at that point either way. A read that is
  pending when the controller is aborted rejects with an \<^verbatim>\<open>AbortError\<close>.
\<close>

fun consume ::
  "(string \<Rightarrow> StreamingChatResponse option) \<Rightarrow> read_step list \<Rightarrow> string \<Rightarrow> string \<Rightarrow> world
     \<Rightarrow> (js_error + string) \<times> world" where
  "consume parse [] buffer currentMessageId w = (Inr currentMessageId, w)"
| "consume parse (Chunk v # steps) buffer currentMessageId w =
     (let lines = split_nl (buffer @ v);
          buffer' = pop_or_empty lines;
          st = fold (process_line parse) (after_pop lines) (w, currentMessageId)
      in consume parse steps buffer' (snd st) (fst st))"
| "consume parse (ReadError e # steps) buffer currentMessageId w = (Inl e, w)"
| "consume parse (Cancel # steps) buffer currentMessageId w =
     (let w' = cancelStreaming w in
      if abortControllerRef w' = Some True then (Inl AbortError, w')
      else consume parse steps buffer currentMessageId w')"

subsection \<open>Storing the finished answer (lines 295-335)\<close>

definition append_messages :: "clock \<Rightarrow> Message \<Rightarrow> Message \<Rightarrow> ChatSession \<Rightarrow> ChatSession" where
  "append_messages clk userMessage secondMessage old =
     old\<lparr>cs_messages := cs_messages old @ [userMessage, secondMessage],
         cs_updated_at := now_iso clk\<rparr>"

text \<open>
  \<^verbatim>\<open>setQueryData(QueryKeys.CHAT_SESSION(id), old => ...)\<close> with an updater that returns
  \<^verbatim>\<open>old\<close> when there is no entry: an absent entry stays absent.
\<close>

definition update_session ::
  "string \<Rightarrow> (ChatSession \<Rightarrow> ChatSession) \<Rightarrow> world \<Rightarrow> world" where
  "update_session sid f w =
     (case chatSession w sid of
        None \<Rightarrow> w
      | Some old \<Rightarrow> w\<lparr>chatSession := (chatSession w)(sid \<mapsto> f old)\<rparr>)"

text \<open>The same for \<^verbatim>\<open>QueryKeys.CHAT_SESSIONS\<close>: only \<^verbatim>\<open>updated_at\<close> of the session changes.\<close>

definition touch_sessions :: "clock \<Rightarrow> string \<Rightarrow> world \<Rightarrow> world" where
  "touch_sessions clk sid w =
     (case chatSessions w of
        None \<Rightarrow> w
      | Some old \<Rightarrow>
          w\<lparr>chatSessions :=
              Some (old\<lparr>sr_sessions :=
                     map (\<lambda>s. if cs_id s = sid then s\<lparr>cs_updated_at := now_iso clk\<rparr> else s)
                         (sr_sessions old)\<rparr>)\<rparr>)"

definition user_message :: "clock \<Rightarrow> string \<Rightarrow> Message" where
  "user_message clk text =
     \<lparr>m_id = ''user-'' @ decimal (now_ms clk), m_content = text, m_role = User,
      m_timestamp = now_iso clk, m_metadata = None\<rparr>"

text \<open>
  The \<^verbatim>\<open>assistantMessage\<close> of lines 304-312. Its content and its sources are the callback's
  own \<^verbatim>\<open>streamingMessage\<close> and \<^verbatim>\<open>streamingSources\<close>, that is the closure's.
\<close>

definition assistant_message :: "clock \<Rightarrow> closure \<Rightarrow> string \<Rightarrow> Message" where
  "assistant_message clk c currentMessageId =
     \<lparr>m_id = currentMessageId, m_content = c_streamingMessage c, m_role = Assistant,
      m_timestamp = now_iso clk,
      m_metadata = Some \<lparr>md_sources = Some (c_streamingSources c), md_confidence = None,
                         md_processing_time = None, md_model_used = None,
                         md_tokens_used = None\<rparr>\<rparr>"

definition store_final ::
  "clock \<Rightarrow> closure \<Rightarrow> string \<Rightarrow> string option \<Rightarrow> string \<Rightarrow> world \<Rightarrow> world" where
  "store_final clk c message finalSessionId currentMessageId w =
     (case finalSessionId of
        None \<Rightarrow> w
      | Some sid \<Rightarrow>
          if sid \<noteq> [] \<and> currentMessageId \<noteq> [] \<and> c_streamingMessage c \<noteq> [] then
            touch_sessions clk sid
              (update_session sid
                 (append_messages clk (user_message clk message)
                    (assistant_message clk c currentMessageId)) w)
          else w)"

subsection \<open>sendStreamingMessage (lines 208-351)\<close>

definition stream_request :: "closure \<Rightarrow> string \<Rightarrow> options \<Rightarrow> ChatRequest" where
  "stream_request c message opts =
     \<lparr>rq_message = message,
      rq_session_id = or_else (o_sessionId opts) (c_sessionId c),
      rq_include_sources = Some (case o_includeSource opts of None \<Rightarrow> True | Some b \<Rightarrow> b),
      rq_max_sources = Some (case o_maxSources opts of None \<Rightarrow> 5 | Some n \<Rightarrow> n)\<rparr>"

text \<open>
  From the \<^verbatim>\<open>await fetch(...)\<close> to the end of the \<^verbatim>\<open>try\<close> block: \<open>Inl\<close> of what is
  thrown, and the world at that point.
\<close>

fun await_response ::
  "(string \<Rightarrow> StreamingChatResponse option) \<Rightarrow> clock \<Rightarrow> closure \<Rightarrow> string \<Rightarrow> options
     \<Rightarrow> fetch_outcome \<Rightarrow> world \<Rightarrow> (js_error + unit) \<times> world" where
  "await_response parse clk c message opts (FetchError e) w = (Inl e, w)"
| "await_response parse clk c message opts (CancelThen net) w =
     (let w' = cancelStreaming w in
      if abortControllerRef w' = Some True then (Inl AbortError, w')
      else await_response parse clk c message opts net w')"
| "await_response parse clk c message opts (HttpResponse status body) w =
     (if \<not> ok status then (Inl (Error (''HTTP error! status: '' @ decimal status)), w)
      else
        (case body of
           NoBody \<Rightarrow> (Inl (Error ''No response body''), w)
         | Body steps \<Rightarrow>
             (case consume parse steps [] [] w of
                (Inl e, w') \<Rightarrow> (Inl e, w')
              | (Inr currentMessageId, w') \<Rightarrow>
                  (Inr (),
                   store_final clk c message
                     (or_else (o_sessionId opts) (c_sessionId c)) currentMessageId w'))))"

definition try_block ::
  "(string \<Rightarrow> StreamingChatResponse option) \<Rightarrow> clock \<Rightarrow> closure \<Rightarrow> string \<Rightarrow> options
     \<Rightarrow> fetch_outcome \<Rightarrow> world \<Rightarrow> (js_error + unit) \<times> world" where
  "try_block parse clk c message opts net w =
     await_response parse clk c message opts net
       (w\<lparr>requests := requests w @ [stream_request c message opts]\<rparr>)"

definition catch_block :: "js_error \<Rightarrow> world \<Rightarrow> world" where
  "catch_block e w =
     (if err_name e \<noteq> ''AbortError'' then
        show_toast \<lparr>t_title = ''Streaming failed'',
                    t_description =
                      (if err_message e \<noteq> [] then err_message e
                       else ''Failed to stream message.''),
                    t_variant = Some ''destructive''\<rparr> w
      else w)"

definition finally_block :: "world \<Rightarrow> world" where
  "finally_block w =
     (setStreamingSources [] (setStreamingMessage (\<lambda>_. []) (setIsStreaming False w)))
       \<lparr>abortControllerRef := None\<rparr>"

definition sendStreamingMessage ::
  "(string \<Rightarrow> StreamingChatResponse option) \<Rightarrow> clock \<Rightarrow> closure \<Rightarrow> string \<Rightarrow> options
     \<Rightarrow> fetch_outcome \<Rightarrow> world \<Rightarrow> world" where
  "sendStreamingMessage parse clk c message opts net w =
     (if c_isStreaming c then w
      else
        (let w1 = (setStreamingSources [] (setStreamingMessage (\<lambda>_. []) (setIsStreaming True w)))
                    \<lparr>abortControllerRef := Some False\<rparr>
         in case try_block parse clk c message opts net w1 of
              (Inl e, w2) \<Rightarrow> finally_block (catch_block e w2)
            | (Inr _, w2) \<Rightarrow> finally_block w2))"


section \<open>Sending without a stream (use-chat.ts, useSendMessage, lines 146-197)\<close>

text \<open>
  \<^verbatim>\<open>onSuccess\<close>: the entry of the session named by the response gets the user's message and
  \<^verbatim>\<open>response.message\<close> appended; in the list of sessions only \<^verbatim>\<open>updated_at\<close> changes.
\<close>

definition sendMessage_onSuccess :: "clock \<Rightarrow> ChatResponse \<Rightarrow> ChatRequest \<Rightarrow> world \<Rightarrow> world" where
  "sendMessage_onSuccess clk response request w =
     (let sessionId = rs_session_id response in
      touch_sessions clk sessionId
        (update_session sessionId
           (append_messages clk (user_message clk (rq_message request)) (rs_message response))
           w))"

text \<open>\<^verbatim>\<open>onError\<close>: a toast with \<^verbatim>\<open>error.detail || 'Failed to send message.'\<close>.\<close>

definition sendMessage_onError :: "string option \<Rightarrow> world \<Rightarrow> world" where
  "sendMessage_onError detail w =
     show_toast \<lparr>t_title = ''Message failed'',
                 t_description =
                   (case detail of
                      None \<Rightarrow> ''Failed to send message.''
                    | Some d \<Rightarrow> if d \<noteq> [] then d else ''Failed to send message.''),
                 t_variant = Some ''destructive''\<rparr> w"

text \<open>
  The mutation: \<^verbatim>\<open>api.post('/api/chat/message', request)\<close> either fails (\<open>Inl\<close> of the error's
  \<^verbatim>\<open>detail\<close>) or gives a \<^verbatim>\<open>ChatResponse\<close>.
\<close>

definition useSendMessage ::
  "clock \<Rightarrow> ChatRequest \<Rightarrow> string option + ChatResponse \<Rightarrow> world \<Rightarrow> world" where
  "useSendMessage clk request result w =
     (case result of
        Inl detail \<Rightarrow> sendMessage_onError detail w
      | Inr response \<Rightarrow> sendMessage_onSuccess clk response request w)"

section \<open>Polling the processing status (use-documents.ts, lines 193-209)\<close>

datatype ProcessingStatus = pending | processing | completed | failed

record DocumentProcessingStatus =
  ps_document_id :: string
  ps_status :: ProcessingStatus
  ps_progress :: "real option"
  ps_error_message :: "string option"
  ps_updated_at :: string

text \<open>\<^verbatim>\<open>enabled: !!documentId\<close>.\<close>

definition enabled :: "string \<Rightarrow> bool" where
  "enabled documentId = (documentId \<noteq> [])"

text \<open>
  The \<^verbatim>\<open>refetchInterval\<close> callback, as a function of the \<^verbatim>\<open>data\<close> it is given: \<open>None\<close> for
  \<^verbatim>\<open>false\<close>, otherwise the milliseconds. \<^verbatim>\<open>data?.status\<close> of no data is \<^verbatim>\<open>undefined\<close>, which is
  neither literal. What calls the callback, with which argument and when, is the query
  library's; the library is not among the sources and they do not fix its version.
\<close>

definition refetchInterval :: "DocumentProcessingStatus option \<Rightarrow> nat option" where
  "refetchInterval data =
     (if map_option ps_status data = Some completed \<or> map_option ps_status data = Some failed
      then None
      else Some 2000)"

section \<open>The chunker\<close>

text \<open>
  Modelled from the spec: the Chunker. Its code (the ingestion backend) is not among the
  sources; only the configuration names \<^verbatim>\<open>CHUNK_SIZE\<close> and \<^verbatim>\<open>CHUNK_OVERLAP\<close> appear in the
  deployment guides. The definition follows sections 4.1 and 8 of the specification:
  \<^verbatim>\<open>chunk(text, chunk_size, overlap)\<close> fills a chunk greedily up to \<^verbatim>\<open>chunk_size\<close> characters,
  then backtracks \<^verbatim>\<open>overlap\<close> characters to start the next one; a text shorter than
  \<^verbatim>\<open>chunk_size\<close> gives exactly one chunk. Boundaries are counted in characters, the policy the
  scenario of section 8 fixes; the preference for paragraph and sentence boundaries has no
  definition in the specification and is not part of the model. \<^verbatim>\<open>overlap \<ge> chunk_size\<close> is
  rejected when the configuration is validated, at startup; \<open>chunk_from\<close> stops after one chunk
  there, which a validated configuration never reaches.
\<close>

record text_chunk =
  ch_index :: nat
  ch_start :: nat
  ch_end :: nat
  ch_text :: string

datatype config_error = ConfigurationError

definition validate_config :: "nat \<Rightarrow> nat \<Rightarrow> config_error + unit" where
  "validate_config chunk_size overlap =
     (if overlap \<ge> chunk_size then Inl ConfigurationError else Inr ())"

function chunk_from :: "string \<Rightarrow> nat \<Rightarrow> nat \<Rightarrow> nat \<Rightarrow> nat \<Rightarrow> text_chunk list" where
  "chunk_from text chunk_size overlap i s =
     (let e = min (s + chunk_size) (length text);
          c = \<lparr>ch_index = i, ch_start = s, ch_end = e, ch_text = take (e - s) (drop s text)\<rparr>
      in if length text \<le> e \<or> chunk_size \<le> overlap then [c]
         else c # chunk_from text chunk_size overlap (Suc i) (e - overlap))"
  by pat_completeness auto
termination
  by (relation "measure (\<lambda>(text, chunk_size, overlap, i, s). length text - s)") auto

declare chunk_from.simps [simp del]

definition chunk :: "string \<Rightarrow> nat \<Rightarrow> nat \<Rightarrow> text_chunk list" where
  "chunk text chunk_size overlap = chunk_from text chunk_size overlap 0 0"

definition spans :: "text_chunk list \<Rightarrow> (nat \<times> nat) list" where
  "spans cs = map (\<lambda>c. (ch_start c, ch_end c)) cs"

section \<open>Inputs of the scenarios\<close>

text \<open>
  The lines of the streaming scenarios and what the runtime's \<^verbatim>\<open>JSON.parse\<close> makes of the
  text after \<^verbatim>\<open>data: \<close> on each of them; \<open>scenario_parse\<close> is that table, and throws on
  anything else.
\<close>

definition doc_a :: DocumentReference where
  "doc_a = \<lparr>dr_document_id = ''doc-a'', dr_filename = ''A.pdf'', dr_page_number = None,
            dr_chunk_id = None, dr_relevance_score = 0.91, dr_snippet = None\<rparr>"

definition line_the :: string where
  \<open>line_the = ''data: {"type":"token","content":"The"}''\<close>

definition line_gdpr :: string where
  \<open>line_gdpr = ''data: {"type":"token","content":" GDPR"}''\<close>

definition line_sources :: string where
  \<open>line_sources = ''data: {"type":"sources","sources":[{"document_id":"doc-a","filename":"A.pdf","relevance_score":0.91}]}''\<close>

definition line_done :: string where
  \<open>line_done = ''data: {"type":"done","message_id":"msg_1"}''\<close>

definition line_error :: string where
  \<open>line_error = ''data: {"type":"error","error":"model overloaded"}''\<close>

definition line_ping :: string where
  \<open>line_ping = ''data: {"type":"ping"}''\<close>

definition line_broken :: string where
  \<open>line_broken = ''data: {"type":"token","content":"The''\<close>

definition event :: "string \<Rightarrow> StreamingChatResponse" where
  "event t = \<lparr>ev_type = t, ev_content = None, ev_sources = None, ev_error = None,
              ev_message_id = None\<rparr>"

definition scenario_parse :: "string \<Rightarrow> StreamingChatResponse option" where
  "scenario_parse s =
     (if s = drop 6 line_the then Some ((event ''token'')\<lparr>ev_content := Some ''The''\<rparr>)
      else if s = drop 6 line_gdpr then Some ((event ''token'')\<lparr>ev_content := Some '' GDPR''\<rparr>)
      else if s = drop 6 line_sources then Some ((event ''sources'')\<lparr>ev_sources := Some [doc_a]\<rparr>)
      else if s = drop 6 line_done then Some ((event ''done'')\<lparr>ev_message_id := Some ''msg_1''\<rparr>)
      else if s = drop 6 line_error then
        Some ((event ''error'')\<lparr>ev_error := Some ''model overloaded''\<rparr>)
      else if s = drop 6 line_ping then Some (event ''ping'')
      else None)"

definition gdpr_steps :: "read_step list" where
  "gdpr_steps =
     [Chunk (line_the @ [newline] @ line_gdpr @ [newline]),
      Chunk (line_sources @ [newline] @ line_done @ [newline])]"

definition session_1 :: ChatSession where
  "session_1 = \<lparr>cs_id = ''s1'', cs_title = ''Chat'', cs_messages = [],
                cs_created_at = ''2024-01-01T00:00:00.000Z'',
                cs_updated_at = ''2024-01-01T00:00:00.000Z'', cs_user_id = ''u1''\<rparr>"

definition idle_world :: world where
  "idle_world = mounted (Map.empty(''s1'' \<mapsto> session_1)) None"

definition clock_1 :: clock where
  "clock_1 = \<lparr>now_ms = 1700000000000, now_iso = ''2023-11-14T22:13:20.000Z''\<rparr>"

definition no_options :: options where
  "no_options = \<lparr>o_sessionId = None, o_includeSource = None, o_maxSources = None\<rparr>"


definition error_steps :: "read_step list" where
  "error_steps =
     [Chunk (line_the @ [newline] @ line_error @ [newline]),
      Chunk (line_gdpr @ [newline] @ line_done @ [newline])]"

definition cancelled_stream :: fetch_outcome where
  "cancelled_stream =
     HttpResponse 200 (Body [Chunk (line_the @ [newline]), Cancel, Chunk (line_done @ [newline])])"

text \<open>
  A call that is cancelled in flight: the first thing to interrupt it is the user's
  \<^verbatim>\<open>cancelStreaming\<close>, while the fetch is pending or, on a response that is \<^verbatim>\<open>ok\<close>, while a
  read is pending after any number of chunks.
\<close>

fun cancelled_reading :: "read_step list \<Rightarrow> bool" where
  "cancelled_reading [] = False"
| "cancelled_reading (Chunk v # steps) = cancelled_reading steps"
| "cancelled_reading (ReadError e # steps) = False"
| "cancelled_reading (Cancel # steps) = True"

fun cancelled :: "fetch_outcome \<Rightarrow> bool" where
  "cancelled (FetchError e) = False"
| "cancelled (CancelThen net) = True"
| "cancelled (HttpResponse status body) =
     (ok status \<and> (case body of NoBody \<Rightarrow> False | Body steps \<Rightarrow> cancelled_reading steps))"

text \<open>Inputs for the non-streaming hook and for the chunker.\<close>

definition request_1 :: ChatRequest where
  "request_1 = \<lparr>rq_message = ''What is the GDPR?'', rq_session_id = Some ''s1'',
                rq_include_sources = None, rq_max_sources = None\<rparr>"

definition response_1 :: ChatResponse where
  "response_1 =
     \<lparr>rs_message = \<lparr>m_id = ''msg_1'', m_content = ''The GDPR'', m_role = Assistant,
                     m_timestamp = ''2023-11-14T22:13:21.000Z'', m_metadata = None\<rparr>,
      rs_session_id = ''s1'', rs_sources = None\<rparr>"

definition document_2500 :: string where
  "document_2500 = replicate 2500 (CHR ''x'')"

section \<open>Properties of the streaming hook\<close>

lemmas scenario_defs = line_the_def line_gdpr_def line_sources_def line_done_def line_error_def
  line_ping_def line_broken_def
  scenario_parse_def event_def gdpr_steps_def doc_a_def

lemmas hook_defs = process_line_def handle_data_def startsWith_def pop_or_empty_def after_pop_def
  setStreamingMessage_def setStreamingSources_def setIsStreaming_def warn_def

lemma gdpr_steps_consumed: "consume scenario_parse gdpr_steps [] [] idle_world =
   (Inr ''msg_1'', idle_world\<lparr>streamingMessage := ''The GDPR'', streamingSources := [doc_a]\<rparr>)"
  by (simp add: scenario_defs hook_defs idle_world_def mounted_def)


lemma split_nl_nonempty: "split_nl s \<noteq> []"
  by (induction s) (auto split: list.splits)

lemma last_split_no_nl: "newline \<notin> set (last (split_nl s))"
  by (induction s) (auto split: list.splits simp: split_nl_nonempty)

lemma split_nl_append:
  "split_nl (a @ b) = butlast (split_nl a) @ split_nl (last (split_nl a) @ b)"
proof (induction a)
  case Nil
  then show ?case by simp
next
  case (Cons c a)
  show ?case
  proof (cases "c = newline")
    case True
    then show ?thesis using Cons split_nl_nonempty[of a] by simp
  next
    case False
    obtain l ls where a: "split_nl a = l # ls"
      using split_nl_nonempty[of a] by (cases "split_nl a") auto
    obtain l2 ls2 where ab: "split_nl (a @ b) = l2 # ls2"
      using split_nl_nonempty[of "a @ b"] by (cases "split_nl (a @ b)") auto
    show ?thesis
    proof (cases ls)
      case Nil
      with a ab Cons False show ?thesis by simp
    next
      case (Cons x xs)
      with a ab Cons.IH False show ?thesis by simp
    qed
  qed
qed

lemma complete_lines_append:
  "butlast (split_nl (a @ b)) =
     butlast (split_nl a) @ butlast (split_nl (last (split_nl a) @ b))"
  by (subst split_nl_append) (simp add: butlast_append split_nl_nonempty)

lemma last_split_append:
  "last (split_nl (a @ b)) = last (split_nl (last (split_nl a) @ b))"
  by (subst split_nl_append) (simp add: split_nl_nonempty)

lemma split_nl_no_nl: "newline \<notin> set s \<Longrightarrow> split_nl s = [s]"
  by (induction s) (auto split: list.splits)

text \<open>What a line can change.\<close>

lemma process_line_frame:
  "isStreaming (fst (process_line parse l st)) = isStreaming (fst st)"
  "abortControllerRef (fst (process_line parse l st)) = abortControllerRef (fst st)"
  "chatSession (fst (process_line parse l st)) = chatSession (fst st)"
  "chatSessions (fst (process_line parse l st)) = chatSessions (fst st)"
  "toasts (fst (process_line parse l st)) = toasts (fst st)"
  "requests (fst (process_line parse l st)) = requests (fst st)"
  by (cases st; simp add: hook_defs split: option.splits sum.splits)+

lemma fold_lines_frame:
  "isStreaming (fst (fold (process_line parse) ls st)) = isStreaming (fst st)"
  "abortControllerRef (fst (fold (process_line parse) ls st)) = abortControllerRef (fst st)"
  "chatSession (fst (fold (process_line parse) ls st)) = chatSession (fst st)"
  "chatSessions (fst (fold (process_line parse) ls st)) = chatSessions (fst st)"
  "toasts (fst (fold (process_line parse) ls st)) = toasts (fst st)"
  "requests (fst (fold (process_line parse) ls st)) = requests (fst st)"
  by (induction ls arbitrary: st; simp add: process_line_frame)+

lemma consume_frame:
  "isStreaming (snd (consume parse steps b m w)) = isStreaming w"
  "chatSession (snd (consume parse steps b m w)) = chatSession w"
  "chatSessions (snd (consume parse steps b m w)) = chatSessions w"
  "toasts (snd (consume parse steps b m w)) = toasts w"
  "requests (snd (consume parse steps b m w)) = requests w"
  by (induction parse steps b m w rule: consume.induct;
      simp add: Let_def fold_lines_frame cancelStreaming_def split: option.splits)+

lemma consume_chunks:
  "newline \<notin> set b \<Longrightarrow>
   consume parse (map Chunk cs) b m w =
     (Inr (snd (fold (process_line parse) (butlast (split_nl (b @ concat cs))) (w, m))),
      fst (fold (process_line parse) (butlast (split_nl (b @ concat cs))) (w, m)))"
proof (induction cs arbitrary: b m w)
  case Nil
  then show ?case by (simp add: split_nl_no_nl)
next
  case (Cons c cs)
  have nl: "newline \<notin> set (last (split_nl (b @ c)))"
    by (rule last_split_no_nl)
  have lines: "butlast (split_nl (b @ c @ concat cs)) =
      butlast (split_nl (b @ c)) @ butlast (split_nl (last (split_nl (b @ c)) @ concat cs))"
    using complete_lines_append[of "b @ c" "concat cs"] by simp
  show ?case
    by (simp add: Let_def pop_or_empty_def after_pop_def split_nl_nonempty Cons.IH[OF nl] lines)
qed

lemma consume_cancelled:
  "abortControllerRef w = Some a \<Longrightarrow> cancelled_reading steps \<Longrightarrow>
   fst (consume parse steps b m w) = Inl AbortError"
proof (induction steps arbitrary: b m w)
  case Nil
  then show ?case by simp
next
  case (Cons s steps)
  show ?case
  proof (cases s)
    case (Chunk v)
    have "abortControllerRef
            (fst (fold (process_line parse) (after_pop (split_nl (b @ v))) (w, m))) = Some a"
      using Cons.prems(1) by (simp add: fold_lines_frame)
    with Cons Chunk show ?thesis by (simp add: Let_def)
  next
    case (ReadError e)
    with Cons.prems show ?thesis by simp
  next
    case Cancel
    with Cons.prems show ?thesis by (simp add: cancelStreaming_def)
  qed
qed

lemma store_final_idle:
  "c_streamingMessage c = [] \<Longrightarrow> store_final clk c message sid m w = w"
  by (simp add: store_final_def split: option.splits)



lemma consume_frame_pair:
  assumes "consume parse steps b m w = (r, w')"
  shows "isStreaming w' = isStreaming w" "chatSession w' = chatSession w"
    "chatSessions w' = chatSessions w" "toasts w' = toasts w" "requests w' = requests w"
  using consume_frame[of parse steps b m w] assms by simp_all

lemma store_final_frame:
  "toasts (store_final clk c message sid m w) = toasts w"
  "isStreaming (store_final clk c message sid m w) = isStreaming w"
  "requests (store_final clk c message sid m w) = requests w"
  by (simp_all add: store_final_def touch_sessions_def update_session_def split: option.splits)

lemma await_response_frame:
  "toasts (snd (await_response parse clk c message opts net w)) = toasts w
   \<and> isStreaming (snd (await_response parse clk c message opts net w)) = isStreaming w"
proof (induction parse clk c message opts net w rule: await_response.induct)
  case (1 parse clk c message opts e0 w)
  then show ?case by simp
next
  case (2 parse clk c message opts net w)
  then show ?case
    by (simp add: Let_def cancelStreaming_def split: option.splits)
next
  case (3 parse clk c message opts status body w)
  show ?case
  proof (cases "ok status")
    case False
    then show ?thesis by simp
  next
    case True
    show ?thesis
    proof (cases body)
      case NoBody
      with True show ?thesis by simp
    next
      case (Body steps)
      obtain r w' where cr: "consume parse steps [] [] w = (r, w')"
        by (cases "consume parse steps [] [] w")
      show ?thesis
        using True Body cr consume_frame_pair[OF cr]
        by (cases r) (simp_all add: store_final_frame)
    qed
  qed
qed

lemma await_response_thrown_cache:
  "await_response parse clk c message opts net w = (Inl e, w') \<Longrightarrow>
   chatSession w' = chatSession w \<and> chatSessions w' = chatSessions w"
proof (induction parse clk c message opts net w rule: await_response.induct)
  case (1 parse clk c message opts e0 w)
  then show ?case by auto
next
  case (2 parse clk c message opts net w)
  show ?case
  proof (cases "abortControllerRef w")
    case None
    with 2 show ?thesis by (simp add: cancelStreaming_def)
  next
    case (Some a)
    with 2 show ?thesis by (auto simp: cancelStreaming_def)
  qed
next
  case (3 parse clk c message opts status body w)
  show ?case
  proof (cases "ok status")
    case False
    with 3 show ?thesis by auto
  next
    case True
    show ?thesis
    proof (cases body)
      case NoBody
      with True 3 show ?thesis by auto
    next
      case (Body steps)
      obtain r w1 where cr: "consume parse steps [] [] w = (r, w1)"
        by (cases "consume parse steps [] [] w")
      show ?thesis
        using True Body cr consume_frame_pair[OF cr] 3
        by (cases r) auto
    qed
  qed
qed

lemma await_response_idle_cache:
  "c_streamingMessage c = [] \<Longrightarrow>
   chatSession (snd (await_response parse clk c message opts net w)) = chatSession w
   \<and> chatSessions (snd (await_response parse clk c message opts net w)) = chatSessions w"
proof (induction parse clk c message opts net w rule: await_response.induct)
  case (1 parse clk c message opts e0 w)
  then show ?case by auto
next
  case (2 parse clk c message opts net w)
  show ?case
  proof (cases "abortControllerRef w")
    case None
    with 2 show ?thesis by (simp add: cancelStreaming_def)
  next
    case (Some a)
    with 2 show ?thesis by (simp add: cancelStreaming_def)
  qed
next
  case (3 parse clk c message opts status body w)
  show ?case
  proof (cases "ok status")
    case False
    with 3 show ?thesis by auto
  next
    case True
    show ?thesis
    proof (cases body)
      case NoBody
      with True 3 show ?thesis by auto
    next
      case (Body steps)
      obtain r w1 where cr: "consume parse steps [] [] w = (r, w1)"
        by (cases "consume parse steps [] [] w")
      show ?thesis
        using True Body cr consume_frame_pair[OF cr] 3
        by (cases r) (simp_all add: store_final_idle)
    qed
  qed
qed

lemma await_response_cancelled:
  assumes a: "abortControllerRef w = Some a" and c: "cancelled net"
  shows "fst (await_response parse clk c message opts net w) = Inl AbortError"
proof (cases net)
  case (FetchError e)
  with c show ?thesis by simp
next
  case (HttpResponse status body)
  from c HttpResponse obtain steps where b: "body = Body steps" "ok status" "cancelled_reading steps"
    by (cases body) auto
  obtain r w1 where cr: "consume parse steps [] [] w = (r, w1)"
    by (cases "consume parse steps [] [] w")
  from consume_cancelled[OF a b(3), of parse "[]" "[]"] cr have "r = Inl AbortError" by simp
  with HttpResponse b cr show ?thesis by simp
next
  case (CancelThen n)
  with a show ?thesis by (simp add: cancelStreaming_def)
qed

lemma finally_block_frame:
  "chatSession (finally_block w) = chatSession w"
  "chatSessions (finally_block w) = chatSessions w"
  "toasts (finally_block w) = toasts w"
  "streamingMessage (finally_block w) = []"
  "streamingSources (finally_block w) = []"
  "isStreaming (finally_block w) = False"
  "abortControllerRef (finally_block w) = None"
  by (simp_all add: finally_block_def hook_defs)

lemma catch_block_frame:
  "chatSession (catch_block e w) = chatSession w"
  "chatSessions (catch_block e w) = chatSessions w"
  by (simp_all add: catch_block_def show_toast_def)




lemma idle_closure_stores_nothing:
  assumes "c_streamingMessage c = []"
  shows "chatSession (sendStreamingMessage parse clk c message opts net w) = chatSession w
       \<and> chatSessions (sendStreamingMessage parse clk c message opts net w) = chatSessions w"
proof (cases "c_isStreaming c")
  case True
  then show ?thesis by (simp add: sendStreamingMessage_def)
next
  case False
  define w1 where "w1 = (setStreamingSources [] (setStreamingMessage (\<lambda>_. [])
      (setIsStreaming True w)))\<lparr>abortControllerRef := Some False,
      requests := requests w @ [stream_request c message opts]\<rparr>"
  obtain r w2 where ar: "await_response parse clk c message opts net w1 = (r, w2)"
    by (cases "await_response parse clk c message opts net w1")
  have "chatSession w2 = chatSession w \<and> chatSessions w2 = chatSessions w"
    using await_response_idle_cache[OF assms, of parse clk message opts net w1] ar
    by (simp add: w1_def hook_defs)
  moreover have "sendStreamingMessage parse clk c message opts net w =
      (case r of Inl e \<Rightarrow> finally_block (catch_block e w2) | Inr _ \<Rightarrow> finally_block w2)"
    using False ar by (simp add: sendStreamingMessage_def try_block_def w1_def hook_defs)
  ultimately show ?thesis
    by (cases r) (simp_all add: finally_block_frame catch_block_frame)
qed


lemma error_event_only_warns:
  "startsWith line ''data: '' \<Longrightarrow> parse (drop 6 line) = Some d \<Longrightarrow> ev_type d = ''error'' \<Longrightarrow>
   process_line parse line (w, m) = (warn line w, m)"
  by (simp add: process_line_def handle_data_def)


lemma chunk_stream_no_toast:
  assumes "ok status"
  shows "toasts (sendStreamingMessage parse clk c message opts
                   (HttpResponse status (Body (map Chunk cs))) w) = toasts w"
proof (cases "c_isStreaming c")
  case True
  then show ?thesis by (simp add: sendStreamingMessage_def)
next
  case False
  then show ?thesis
    using assms
    by (simp add: sendStreamingMessage_def try_block_def consume_chunks finally_block_frame
        store_final_frame fold_lines_frame hook_defs Let_def)
qed

lemma error_steps_chunks: "error_steps = map Chunk
   [line_the @ [newline] @ line_error @ [newline], line_gdpr @ [newline] @ line_done @ [newline]]"
  by (simp add: error_steps_def)


lemma split_line_then_more:
  "newline \<notin> set line \<Longrightarrow> split_nl (line @ newline # later) = line # split_nl later"
  by (induction line) (auto split: list.splits)


subsection \<open>The claims about streaming\<close>

text \<open>
  Claim C1. The stream \<open>token("The"), token(" GDPR"), sources([doc A]), done(msg_1)\<close> should
  end with an assistant message of text "The GDPR" and one source stored in the session under
  \<open>msg_1\<close>. The read loop does assemble that text, that source and that identifier in the
  hook's state. The test before storing reads the callback's own \<^verbatim>\<open>streamingMessage\<close>, which
  is the empty string of the render that made the callback, so nothing is stored: the session
  of the scenario still has no message after the call.
\<close>

theorem gdpr_answer_assembled_but_not_stored:
  "consume scenario_parse gdpr_steps [] [] idle_world =
     (Inr ''msg_1'', idle_world\<lparr>streamingMessage := ''The GDPR'', streamingSources := [doc_a]\<rparr>)
   \<and> chatSession idle_world ''s1'' = Some session_1
   \<and> chatSession
        (sendStreamingMessage scenario_parse clock_1 (render idle_world (Some ''s1''))
           ''What is the GDPR?'' no_options (HttpResponse 200 (Body gdpr_steps)) idle_world)
        ''s1'' = Some session_1
   \<and> cs_messages session_1 = []"
proof -
  have "c_streamingMessage (render idle_world (Some ''s1'')) = []"
    by (simp add: render_def idle_world_def mounted_def)
  from idle_closure_stores_nothing[OF this] gdpr_steps_consumed show ?thesis
    by (simp add: idle_world_def mounted_def session_1_def)
qed


text \<open>
  Claim C2. Cancelling a call that is in flight leaves the message log unchanged: the cached
  session and the list of sessions are what they were, the partial text and sources are
  reset, the hook is idle again, and no toast is shown.
\<close>

theorem cancel_leaves_log_unchanged:
  assumes "\<not> c_isStreaming c" and "cancelled net"
  shows "chatSession (sendStreamingMessage parse clk c message opts net w) = chatSession w
       \<and> chatSessions (sendStreamingMessage parse clk c message opts net w) = chatSessions w
       \<and> streamingMessage (sendStreamingMessage parse clk c message opts net w) = []
       \<and> streamingSources (sendStreamingMessage parse clk c message opts net w) = []
       \<and> isStreaming (sendStreamingMessage parse clk c message opts net w) = False
       \<and> toasts (sendStreamingMessage parse clk c message opts net w) = toasts w"
proof -
  define w1 where "w1 = (setStreamingSources [] (setStreamingMessage (\<lambda>_. [])
      (setIsStreaming True w)))\<lparr>abortControllerRef := Some False,
      requests := requests w @ [stream_request c message opts]\<rparr>"
  obtain r w2 where ar: "await_response parse clk c message opts net w1 = (r, w2)"
    by (cases "await_response parse clk c message opts net w1")
  have "abortControllerRef w1 = Some False"
    by (simp add: w1_def)
  from await_response_cancelled[OF this assms(2), of parse clk c message opts] ar
  have r: "r = Inl AbortError" by simp
  have cache: "chatSession w2 = chatSession w \<and> chatSessions w2 = chatSessions w"
    using await_response_thrown_cache[of parse clk c message opts net w1 AbortError w2] ar r
    by (simp add: w1_def hook_defs)
  have t: "toasts w2 = toasts w"
    using await_response_frame[of parse clk c message opts net w1] ar
    by (simp add: w1_def hook_defs)
  have "sendStreamingMessage parse clk c message opts net w =
      finally_block (catch_block AbortError w2)"
    using assms(1) ar r by (simp add: sendStreamingMessage_def try_block_def w1_def hook_defs)
  moreover have "catch_block AbortError w2 = w2"
    by (simp add: catch_block_def AbortError_def)
  ultimately show ?thesis using cache t by (simp add: finally_block_frame)
qed

theorem cancel_leaves_log_unchanged_witness:
  "\<not> c_isStreaming (render idle_world (Some ''s1'')) \<and> cancelled cancelled_stream
   \<and> chatSession (sendStreamingMessage scenario_parse clock_1 (render idle_world (Some ''s1''))
        ''What is the GDPR?'' no_options cancelled_stream idle_world) ''s1'' = Some session_1
   \<and> streamingMessage (sendStreamingMessage scenario_parse clock_1 (render idle_world (Some ''s1''))
        ''What is the GDPR?'' no_options cancelled_stream idle_world) = []
   \<and> toasts (sendStreamingMessage scenario_parse clock_1 (render idle_world (Some ''s1''))
        ''What is the GDPR?'' no_options cancelled_stream idle_world) = []"
proof -
  have h1: "\<not> c_isStreaming (render idle_world (Some ''s1''))"
    by (simp add: render_def idle_world_def mounted_def)
  have h2: "cancelled cancelled_stream"
    by (simp add: cancelled_stream_def ok_def)
  from cancel_leaves_log_unchanged[OF h1 h2, of scenario_parse clock_1 "''What is the GDPR?''"
      no_options idle_world] h1 h2
  show ?thesis by (simp add: idle_world_def mounted_def)
qed





text \<open>
  Claim C4. An \<open>error\<close> event should end the answer and show an error. In the stream
  \<open>token("The"), error, token(" GDPR"), done(msg_1)\<close> the error thrown by \<^verbatim>\<open>case 'error'\<close> is
  caught by the \<^verbatim>\<open>catch\<close> of the line: the loop warns, goes on, appends the later token and
  ends normally, and the call shows no toast.
\<close>

theorem error_event_not_terminal:
  "consume scenario_parse error_steps [] [] idle_world =
     (Inr ''msg_1'', idle_world\<lparr>streamingMessage := ''The GDPR'', console_warn := [line_error]\<rparr>)
   \<and> toasts (sendStreamingMessage scenario_parse clock_1 (render idle_world (Some ''s1''))
        ''What is the GDPR?'' no_options (HttpResponse 200 (Body error_steps)) idle_world) = []"
proof -
  have a: "consume scenario_parse error_steps [] [] idle_world =
     (Inr ''msg_1'', idle_world\<lparr>streamingMessage := ''The GDPR'', console_warn := [line_error]\<rparr>)"
    by (simp add: error_steps_def scenario_defs hook_defs idle_world_def mounted_def Error_def)
  have "toasts (sendStreamingMessage scenario_parse clock_1 (render idle_world (Some ''s1''))
        ''What is the GDPR?'' no_options
        (HttpResponse 200 (Body (map Chunk [line_the @ [newline] @ line_error @ [newline],
           line_gdpr @ [newline] @ line_done @ [newline]]))) idle_world) = toasts idle_world"
    by (rule chunk_stream_no_toast) (simp add: ok_def)
  then have "toasts (sendStreamingMessage scenario_parse clock_1 (render idle_world (Some ''s1''))
        ''What is the GDPR?'' no_options (HttpResponse 200 (Body error_steps)) idle_world) = []"
    by (simp add: error_steps_def idle_world_def mounted_def)
  with a show ?thesis by simp
qed


text \<open>
  Claim C5. The consumer recognises an event only on a line that starts with \<open>data: \<close> and
  whose JSON carries one of the types \<open>token\<close>, \<open>sources\<close>, \<open>done\<close>, \<open>error\<close>: any other line, and
  any other type, leaves the state as it is. A token event carries the text that is appended,
  a sources event the list that becomes the sources, a done event the message identifier, and
  an error event the reason of the error thrown.
\<close>

theorem stream_event_framing:
  "(process_line parse line (w, m) \<noteq> (w, m) \<longrightarrow> startsWith line ''data: '')
   \<and> (startsWith line ''data: '' \<and> parse (drop 6 line) = Some d \<longrightarrow>
        (ev_type d \<notin> {''token'', ''sources'', ''done'', ''error''} \<longrightarrow>
           process_line parse line (w, m) = (w, m))
      \<and> (ev_type d = ''token'' \<longrightarrow>
           process_line parse line (w, m) =
             (w\<lparr>streamingMessage :=
                  streamingMessage w @ (case ev_content d of None \<Rightarrow> [] | Some t \<Rightarrow> t)\<rparr>, m))
      \<and> (ev_type d = ''sources'' \<longrightarrow>
           (\<forall>s. ev_sources d = Some s \<longrightarrow>
              process_line parse line (w, m) = (w\<lparr>streamingSources := s\<rparr>, m)))
      \<and> (ev_type d = ''done'' \<longrightarrow>
           (\<forall>i. ev_message_id d = Some i \<and> i \<noteq> [] \<longrightarrow>
              process_line parse line (w, m) = (w, i)))
      \<and> (ev_type d = ''error'' \<longrightarrow>
           (\<forall>e. ev_error d = Some e \<and> e \<noteq> [] \<longrightarrow> handle_data d (w, m) = Inl (Error e))))"
proof -
  have a: "process_line parse line (w, m) \<noteq> (w, m) \<longrightarrow> startsWith line ''data: ''"
    by (simp add: process_line_def)
  have b: "startsWith line ''data: '' \<and> parse (drop 6 line) = Some d \<Longrightarrow>
      process_line parse line (w, m) =
        (case handle_data d (w, m) of Inl e \<Rightarrow> (warn line w, m) | Inr st' \<Rightarrow> st')"
    by (cases "handle_data d (w, m)") (simp_all add: process_line_def)
  show ?thesis
    using a b
    by (simp add: handle_data_def setStreamingMessage_def setStreamingSources_def)
qed

theorem stream_event_framing_witness:
  "startsWith line_the ''data: ''
   \<and> process_line scenario_parse line_the (idle_world, []) =
       (idle_world\<lparr>streamingMessage := ''The''\<rparr>, [])
   \<and> process_line scenario_parse line_sources (idle_world, []) =
       (idle_world\<lparr>streamingSources := [doc_a]\<rparr>, [])
   \<and> process_line scenario_parse line_done (idle_world, []) = (idle_world, ''msg_1'')
   \<and> handle_data ((event ''error'')\<lparr>ev_error := Some ''model overloaded''\<rparr>) (idle_world, []) =
       Inl (Error ''model overloaded'')
   \<and> process_line scenario_parse line_ping (idle_world, []) = (idle_world, [])"
proof -
  define d1 where "d1 = (event ''token'')\<lparr>ev_content := Some ''The''\<rparr>"
  define d2 where "d2 = (event ''sources'')\<lparr>ev_sources := Some [doc_a]\<rparr>"
  define d3 where "d3 = (event ''done'')\<lparr>ev_message_id := Some ''msg_1''\<rparr>"
  define d4 where "d4 = (event ''error'')\<lparr>ev_error := Some ''model overloaded''\<rparr>"
  define d5 where "d5 = event ''ping''"
  have p1: "startsWith line_the ''data: '' \<and> scenario_parse (drop 6 line_the) = Some d1"
    by (simp add: startsWith_def scenario_defs d1_def)
  have p2: "startsWith line_sources ''data: '' \<and> scenario_parse (drop 6 line_sources) = Some d2"
    by (simp add: startsWith_def scenario_defs d2_def)
  have p3: "startsWith line_done ''data: '' \<and> scenario_parse (drop 6 line_done) = Some d3"
    by (simp add: startsWith_def scenario_defs d3_def)
  have p4: "startsWith line_error ''data: '' \<and> scenario_parse (drop 6 line_error) = Some d4"
    by (simp add: startsWith_def scenario_defs d4_def)
  have p5: "startsWith line_ping ''data: '' \<and> scenario_parse (drop 6 line_ping) = Some d5"
    by (simp add: startsWith_def scenario_defs line_ping_def d5_def)
  have k1: "ev_type d1 = ''token''" "ev_content d1 = Some ''The''"
    by (simp_all add: d1_def event_def)
  have k2: "ev_type d2 = ''sources''" "ev_sources d2 = Some [doc_a]"
    by (simp_all add: d2_def event_def)
  have k3: "ev_type d3 = ''done''" "ev_message_id d3 = Some ''msg_1'' \<and> ''msg_1'' \<noteq> []"
    by (simp_all add: d3_def event_def)
  have k4: "ev_type d4 = ''error''"
    "ev_error d4 = Some ''model overloaded'' \<and> ''model overloaded'' \<noteq> []"
    by (simp_all add: d4_def event_def)
  have k5: "ev_type d5 \<notin> {''token'', ''sources'', ''done'', ''error''}"
    by (simp add: d5_def event_def)
  have s: "streamingMessage idle_world = []"
    by (simp add: idle_world_def mounted_def)
  note f1 = stream_event_framing[of scenario_parse line_the idle_world "[]" d1,
      THEN conjunct2, THEN mp, OF p1]
  note f2 = stream_event_framing[of scenario_parse line_sources idle_world "[]" d2,
      THEN conjunct2, THEN mp, OF p2]
  note f3 = stream_event_framing[of scenario_parse line_done idle_world "[]" d3,
      THEN conjunct2, THEN mp, OF p3]
  note f4 = stream_event_framing[of scenario_parse line_error idle_world "[]" d4,
      THEN conjunct2, THEN mp, OF p4]
  note f5 = stream_event_framing[of scenario_parse line_ping idle_world "[]" d5,
      THEN conjunct2, THEN mp, OF p5]
  have t: "process_line scenario_parse line_the (idle_world, []) =
       (idle_world\<lparr>streamingMessage := ''The''\<rparr>, [])"
    using f1[THEN conjunct2, THEN conjunct1, THEN mp, OF k1(1)] k1(2) s by simp
  have so: "process_line scenario_parse line_sources (idle_world, []) =
       (idle_world\<lparr>streamingSources := [doc_a]\<rparr>, [])"
    using f2[THEN conjunct2, THEN conjunct2, THEN conjunct1, THEN mp, OF k2(1), THEN spec,
        THEN mp, OF k2(2)] .
  have d: "process_line scenario_parse line_done (idle_world, []) = (idle_world, ''msg_1'')"
    using f3[THEN conjunct2, THEN conjunct2, THEN conjunct2, THEN conjunct1, THEN mp, OF k3(1),
        THEN spec, THEN mp, OF k3(2)] .
  have e: "handle_data d4 (idle_world, []) = Inl (Error ''model overloaded'')"
    using f4[THEN conjunct2, THEN conjunct2, THEN conjunct2, THEN conjunct2, THEN mp, OF k4(1),
        THEN spec, THEN mp, OF k4(2)] .
  have g: "process_line scenario_parse line_ping (idle_world, []) = (idle_world, [])"
    using f5[THEN conjunct1, THEN mp, OF k5] .
  from p1 t so d e g show ?thesis unfolding d4_def by blast
qed

text \<open>
  Claim C9. The result of the read loop does not depend on where the stream is cut into
  chunks: reading the chunks one by one gives the same final message identifier and the same
  world as reading their concatenation as one chunk. This holds for every text, whether or
  not it ends with a newline.
\<close>

theorem chunk_boundary_invariance:
  "consume parse (map Chunk cs) [] m w = consume parse [Chunk (concat cs)] [] m w"
proof -
  have "consume parse [Chunk (concat cs)] [] m w = consume parse (map Chunk [concat cs]) [] m w"
    by simp
  also have "\<dots> = consume parse (map Chunk cs) [] m w"
    by (simp only: consume_chunks[of "[]", simplified]) simp
  finally show ?thesis by simp
qed

text \<open>
  Claim C10. A line that starts with \<open>data: \<close> and whose rest \<^verbatim>\<open>JSON.parse\<close> rejects only adds
  a warning: the text, the sources and the message identifier stay as they are, and the
  lines and chunks after it are processed as if from the state with that warning.
\<close>

theorem malformed_line_skipped:
  assumes "startsWith line ''data: ''" and "parse (drop 6 line) = None"
  shows "process_line parse line (w, m) = (warn line w, m)
       \<and> streamingMessage (warn line w) = streamingMessage w
       \<and> streamingSources (warn line w) = streamingSources w
       \<and> fold (process_line parse) (line # rest) (w, m) =
           fold (process_line parse) rest (warn line w, m)
       \<and> (newline \<notin> set line \<longrightarrow>
            consume parse (Chunk (line @ [newline] @ later) # steps) [] m w =
            consume parse (Chunk later # steps) [] m (warn line w))"
proof -
  have a: "process_line parse line (w, m) = (warn line w, m)"
    using assms by (simp add: process_line_def)
  have b: "newline \<notin> set line \<Longrightarrow>
      consume parse (Chunk (line @ [newline] @ later) # steps) [] m w =
      consume parse (Chunk later # steps) [] m (warn line w)"
    using a by (simp add: split_line_then_more pop_or_empty_def after_pop_def
        split_nl_nonempty Let_def)
  show ?thesis using a b by (simp add: warn_def)
qed

theorem malformed_line_skipped_witness:
  "startsWith line_broken ''data: '' \<and> scenario_parse (drop 6 line_broken) = None
   \<and> newline \<notin> set line_broken
   \<and> process_line scenario_parse line_broken (idle_world, []) = (warn line_broken idle_world, [])
   \<and> consume scenario_parse [Chunk (line_broken @ [newline] @ line_the @ [newline])] [] [] idle_world
       = consume scenario_parse [Chunk (line_the @ [newline])] [] [] (warn line_broken idle_world)"
proof -
  have h1: "startsWith line_broken ''data: ''"
    by (simp add: startsWith_def line_broken_def)
  have h2: "scenario_parse (drop 6 line_broken) = None"
    by (simp add: scenario_defs line_broken_def line_ping_def)
  have h3: "newline \<notin> set line_broken"
    by (simp add: line_broken_def)
  show ?thesis
    using h1 h2 h3
      malformed_line_skipped[where line = line_broken and parse = scenario_parse
        and w = idle_world and m = "[]" and rest = "[]" and later = "line_the @ [newline]"
        and steps = "[]"]
    by simp
qed

section \<open>Properties of sending without a stream\<close>

lemma touch_sessions_chatSession:
  "chatSession (touch_sessions clk sid w) = chatSession w"
  by (simp add: touch_sessions_def split: option.splits)

lemma update_session_present:
  "chatSession w sid = Some old \<Longrightarrow>
   chatSession (update_session sid f w) = (chatSession w)(sid \<mapsto> f old)"
  by (simp add: update_session_def)

text \<open>
  Claim C7. After a successful non-streaming send, the cached message list of the session
  named by the response is the list before the call followed by the user's message and then
  the message of the response, in that order; what was there before stays in place, and no
  other session's entry changes. (The copies kept in the list of sessions only get a new
  \<^verbatim>\<open>updated_at\<close>.)
\<close>

theorem send_message_appends_pair:
  assumes "chatSession w (rs_session_id response) = Some old"
  shows "map_option cs_messages
           (chatSession (useSendMessage clk request (Inr response) w) (rs_session_id response)) =
         Some (cs_messages old @ [user_message clk (rq_message request), rs_message response])
       \<and> m_role (user_message clk (rq_message request)) = User
       \<and> m_content (user_message clk (rq_message request)) = rq_message request
       \<and> (\<forall>sid. sid \<noteq> rs_session_id response \<longrightarrow>
             chatSession (useSendMessage clk request (Inr response) w) sid = chatSession w sid)"
  using update_session_present[OF assms]
  by (simp add: useSendMessage_def sendMessage_onSuccess_def touch_sessions_chatSession
      append_messages_def user_message_def Let_def)

theorem send_message_appends_pair_witness:
  "chatSession idle_world (rs_session_id response_1) = Some session_1
   \<and> map_option cs_messages
        (chatSession (useSendMessage clock_1 request_1 (Inr response_1) idle_world) ''s1'') =
       Some [user_message clock_1 ''What is the GDPR?'', rs_message response_1]"
proof -
  have h: "chatSession idle_world (rs_session_id response_1) = Some session_1"
    by (simp add: idle_world_def mounted_def response_1_def)
  have r: "rs_session_id response_1 = ''s1''" "rq_message request_1 = ''What is the GDPR?''"
    "cs_messages session_1 = []"
    by (simp_all add: response_1_def request_1_def session_1_def)
  from send_message_appends_pair[OF h, of clock_1 request_1, THEN conjunct1] h r
  show ?thesis by simp
qed

section \<open>Properties of the status callback\<close>

text \<open>
  Given the status data, the callback answers \<^verbatim>\<open>false\<close> exactly on \<open>completed\<close> and \<open>failed\<close>,
  and 2000 otherwise, also when there are no data yet.
\<close>

lemma refetchInterval_of_data:
  "refetchInterval (Some d) =
     (if ps_status d = completed \<or> ps_status d = failed then None else Some 2000)"
  "refetchInterval None = Some 2000"
  by (simp_all add: refetchInterval_def)

section \<open>Properties of the chunker\<close>

lemma chunk_from_nonempty: "chunk_from src n ov i s \<noteq> []"
  by (subst chunk_from.simps) (simp add: Let_def)

lemma chunk_from_hd: "ch_start (hd (chunk_from src n ov i s)) = s"
  by (subst chunk_from.simps) (simp add: Let_def)

lemma chunk_from_last:
  "ov < n \<Longrightarrow> ch_end (last (chunk_from src n ov i s)) = length src"
proof (induction src n ov i s rule: chunk_from.induct)
  case (1 src n ov i s)
  show ?case
  proof (cases "length src \<le> min (s + n) (length src)")
    case True
    then show ?thesis by (subst chunk_from.simps) (simp add: Let_def)
  next
    case False
    with 1 show ?thesis
      by (subst chunk_from.simps) (simp add: Let_def chunk_from_nonempty)
  qed
qed

lemma chunk_from_consecutive:
  "ov < n \<Longrightarrow> Suc k < length (chunk_from src n ov i s) \<Longrightarrow>
   ch_end (chunk_from src n ov i s ! k) = ch_start (chunk_from src n ov i s ! k) + n
   \<and> ch_start (chunk_from src n ov i s ! Suc k) + ov = ch_end (chunk_from src n ov i s ! k)"
proof (induction src n ov i s arbitrary: k rule: chunk_from.induct)
  case (1 src n ov i s)
  show ?case
  proof (cases "length src \<le> min (s + n) (length src)")
    case True
    with "1.prems" show ?thesis by (subst (asm) chunk_from.simps) (simp add: Let_def)
  next
    case False
    then have e: "min (s + n) (length src) = s + n" by simp
    have unf: "chunk_from src n ov i s =
        \<lparr>ch_index = i, ch_start = s, ch_end = s + n, ch_text = take n (drop s src)\<rparr>
        # chunk_from src n ov (Suc i) (s + n - ov)"
      using False "1.prems"(1) by (subst chunk_from.simps) (simp add: Let_def e)
    show ?thesis
    proof (cases k)
      case 0
      then show ?thesis
        using unf "1.prems"(1) chunk_from_hd[of src n ov "Suc i" "s + n - ov"]
          chunk_from_nonempty[of src n ov "Suc i" "s + n - ov"]
        by (simp add: hd_conv_nth)
    next
      case (Suc j)
      have "Suc j < length (chunk_from src n ov (Suc i) (s + n - ov))"
        using "1.prems"(2) unf Suc by simp
      moreover have "\<not> (length src \<le> min (s + n) (length src) \<or> n \<le> ov)"
        using False "1.prems"(1) by simp
      ultimately show ?thesis
        using "1.IH"[OF refl refl _ "1.prems"(1), unfolded e, of j] unf Suc by simp
    qed
  qed
qed

lemma chunk_from_cover:
  "ov < n \<Longrightarrow> s \<le> p \<Longrightarrow> p < length src \<Longrightarrow>
   \<exists>c \<in> set (chunk_from src n ov i s). ch_start c \<le> p \<and> p < ch_end c"
proof (induction src n ov i s rule: chunk_from.induct)
  case (1 src n ov i s)
  show ?case
  proof (cases "length src \<le> min (s + n) (length src)")
    case True
    with "1.prems" show ?thesis by (subst chunk_from.simps) (simp add: Let_def)
  next
    case False
    then have e: "min (s + n) (length src) = s + n" by simp
    have unf: "chunk_from src n ov i s =
        \<lparr>ch_index = i, ch_start = s, ch_end = s + n, ch_text = take n (drop s src)\<rparr>
        # chunk_from src n ov (Suc i) (s + n - ov)"
      using False "1.prems"(1) by (subst chunk_from.simps) (simp add: Let_def e)
    show ?thesis
    proof (cases "p < s + n")
      case True
      with "1.prems" unf show ?thesis by simp
    next
      case False2: False
      then have "s + n - ov \<le> p" by simp
      moreover have "\<not> (length src \<le> min (s + n) (length src) \<or> n \<le> ov)"
        using False "1.prems"(1) by simp
      ultimately show ?thesis
        using "1.IH"[OF refl refl _ "1.prems"(1) _ "1.prems"(3), unfolded e] unf by auto
    qed
  qed
qed

lemma chunk_from_text:
  "c \<in> set (chunk_from src n ov i s) \<Longrightarrow>
   ch_text c = take (ch_end c - ch_start c) (drop (ch_start c) src)"
proof (induction src n ov i s rule: chunk_from.induct)
  case (1 src n ov i s)
  show ?case
  proof (cases "length src \<le> min (s + n) (length src) \<or> n \<le> ov")
    case True
    with "1.prems" show ?thesis by (subst (asm) chunk_from.simps) (auto simp: Let_def)
  next
    case False
    have unf: "chunk_from src n ov i s =
        \<lparr>ch_index = i, ch_start = s, ch_end = min (s + n) (length src),
         ch_text = take (min (s + n) (length src) - s) (drop s src)\<rparr>
        # chunk_from src n ov (Suc i) (min (s + n) (length src) - ov)"
      using False by (subst chunk_from.simps) (simp add: Let_def)
    from "1.prems" unf "1.IH"[OF refl refl False] show ?thesis by auto
  qed
qed

lemma scenario_spans:
  "length src = 2500 \<Longrightarrow> spans (chunk src 1000 200) = [(0, 1000), (800, 1800), (1600, 2500)]"
  by (simp add: spans_def chunk_def chunk_from.simps[of _ "1000" "200"] Let_def)

text \<open>
  Claim C6. With chunks of 1000 characters overlapping by 200, a document of 2500 characters
  gives the three spans [0,1000), [800,1800), [1600,2500). For every document and every
  configuration with \<open>overlap < chunk_size\<close>: the first chunk starts at 0, the last ends at
  the end of the text, every chunk but the last has \<open>chunk_size\<close> characters and the next one
  starts exactly \<open>overlap\<close> characters before its end, every position of the text lies in
  some chunk, and each chunk holds the text of its span.
\<close>

theorem chunk_spans_cover:
  "(length src = 2500 \<longrightarrow>
      spans (chunk src 1000 200) = [(0, 1000), (800, 1800), (1600, 2500)])
   \<and> (overlap < chunk_size \<longrightarrow>
        chunk src chunk_size overlap \<noteq> []
      \<and> ch_start (hd (chunk src chunk_size overlap)) = 0
      \<and> ch_end (last (chunk src chunk_size overlap)) = length src
      \<and> (\<forall>k. Suc k < length (chunk src chunk_size overlap) \<longrightarrow>
             ch_end (chunk src chunk_size overlap ! k) =
               ch_start (chunk src chunk_size overlap ! k) + chunk_size
           \<and> ch_start (chunk src chunk_size overlap ! Suc k) + overlap =
               ch_end (chunk src chunk_size overlap ! k))
      \<and> (\<forall>p < length src. \<exists>c \<in> set (chunk src chunk_size overlap).
             ch_start c \<le> p \<and> p < ch_end c)
      \<and> (\<forall>c \<in> set (chunk src chunk_size overlap).
             ch_text c = take (ch_end c - ch_start c) (drop (ch_start c) src)))"
proof -
  let ?cs = "chunk src chunk_size overlap"
  have a: "length src = 2500 \<longrightarrow>
      spans (chunk src 1000 200) = [(0, 1000), (800, 1800), (1600, 2500)]"
    using scenario_spans[of src] by simp
  have b: "?cs \<noteq> []" "ch_start (hd ?cs) = 0"
    by (simp_all add: chunk_def chunk_from_nonempty chunk_from_hd)
  have c: "overlap < chunk_size \<Longrightarrow> ch_end (last ?cs) = length src"
    by (simp add: chunk_def chunk_from_last)
  have d: "overlap < chunk_size \<Longrightarrow> Suc k < length ?cs \<Longrightarrow>
      ch_end (?cs ! k) = ch_start (?cs ! k) + chunk_size
      \<and> ch_start (?cs ! Suc k) + overlap = ch_end (?cs ! k)" for k
    unfolding chunk_def by (rule chunk_from_consecutive)
  have e: "overlap < chunk_size \<Longrightarrow> p < length src \<Longrightarrow>
      \<exists>c \<in> set ?cs. ch_start c \<le> p \<and> p < ch_end c" for p
    unfolding chunk_def by (rule chunk_from_cover) simp_all
  have f: "c \<in> set ?cs \<Longrightarrow> ch_text c = take (ch_end c - ch_start c) (drop (ch_start c) src)"
    for c
    unfolding chunk_def by (rule chunk_from_text)
  show ?thesis
  proof (intro conjI impI allI ballI)
    show "length src = 2500 \<Longrightarrow>
        spans (chunk src 1000 200) = [(0, 1000), (800, 1800), (1600, 2500)]"
      using a by simp
  qed (use b c d e f in \<open>simp_all\<close>)
qed

theorem chunk_spans_cover_witness:
  "length document_2500 = 2500 \<and> (200::nat) < 1000
   \<and> spans (chunk document_2500 1000 200) = [(0, 1000), (800, 1800), (1600, 2500)]
   \<and> ch_end (last (chunk document_2500 1000 200)) = 2500
   \<and> Suc 0 < length (chunk document_2500 1000 200)
   \<and> ch_start (chunk document_2500 1000 200 ! Suc 0) + 200 =
       ch_end (chunk document_2500 1000 200 ! 0)
   \<and> (\<exists>c \<in> set (chunk document_2500 1000 200). ch_start c \<le> 900 \<and> 900 < ch_end c)"
proof -
  have l: "length document_2500 = 2500" by (simp add: document_2500_def)
  have c: "(200::nat) < 1000" by simp
  note thm2500 = chunk_spans_cover[of document_2500 200 1000]
  from thm2500[THEN conjunct1] l
  have s: "spans (chunk document_2500 1000 200) = [(0, 1000), (800, 1800), (1600, 2500)]"
    by blast
  have "length (spans (chunk document_2500 1000 200)) = 3" by (simp only: s) simp
  then have n: "Suc 0 < length (chunk document_2500 1000 200)" by (simp add: spans_def)
  note g = thm2500[THEN conjunct2, THEN mp, OF c]
  have e: "ch_end (last (chunk document_2500 1000 200)) = 2500"
    using g[THEN conjunct2, THEN conjunct2, THEN conjunct1] l by simp
  have o: "ch_start (chunk document_2500 1000 200 ! Suc 0) + 200 =
       ch_end (chunk document_2500 1000 200 ! 0)"
    using g[THEN conjunct2, THEN conjunct2, THEN conjunct2, THEN conjunct1, THEN spec,
        THEN mp, OF n] by simp
  have "(900::nat) < length document_2500" using l by simp
  with g[THEN conjunct2, THEN conjunct2, THEN conjunct2, THEN conjunct2, THEN conjunct1]
  have v: "\<exists>c \<in> set (chunk document_2500 1000 200). ch_start c \<le> 900 \<and> 900 < ch_end c"
    by blast
  from l c s e n o v show ?thesis by blast
qed

end
